theory Spec2Isabelle
  imports Main
begin

section \<open>Data model\<close>

text \<open>
  Decoded values are the \<open>JSONValue\<close> of the provider package: null, booleans, numbers,
  strings, arrays and objects. An object is the list of its own enumerable properties,
  one entry per key, in the order in which a \<open>for ... in\<close> loop visits them. No
  function below inspects a number, so its payload is an integer.

  Text is a list of 8-bit characters: the model covers the texts all of whose code units
  are below 256.
\<close>

datatype jsonvalue =
    JNull
  | JBoolean bool
  | JNumber int
  | JString string
  | JArray "jsonvalue list"
  | JObject "(string \<times> jsonvalue) list"

text \<open>
  Errors are values. \<open>SyntaxError\<close> and \<open>TypeError\<close> are the built-in classes with their
  message; \<open>JSONParseError\<close> carries \<open>text\<close> and \<open>cause\<close>; \<open>TypeValidationError\<close> carries
  \<open>value\<close> and \<open>cause\<close>; \<open>NoObjectGeneratedError\<close> carries \<open>message\<close>, \<open>cause\<close>, \<open>text\<close>,
  \<open>response\<close>, \<open>usage\<close> and \<open>finishReason\<close>; \<open>OtherError\<close> stands for every other class. The
  three metadata types are declared outside the files at hand and are type parameters.
\<close>

datatype ('r, 'u, 'f) err =
    SyntaxError string
  | TypeError string
  | JSONParseError string "('r, 'u, 'f) err"
  | TypeValidationError jsonvalue "('r, 'u, 'f) err"
  | NoObjectGeneratedError string "('r, 'u, 'f) err" string 'r 'u 'f
  | OtherError string

fun isJSONParseError :: "('r, 'u, 'f) err \<Rightarrow> bool" where
  "isJSONParseError (JSONParseError t c) = True"
| "isJSONParseError e = False"

fun isTypeValidationError :: "('r, 'u, 'f) err \<Rightarrow> bool" where
  "isTypeValidationError (TypeValidationError v c) = True"
| "isTypeValidationError e = False"

fun isNoObjectGeneratedError :: "('r, 'u, 'f) err \<Rightarrow> bool" where
  "isNoObjectGeneratedError (NoObjectGeneratedError m c t r u f) = True"
| "isNoObjectGeneratedError e = False"

text \<open>\<open>ParseResult\<close>: success with \<open>value\<close> and \<open>rawValue\<close>, or failure with \<open>error\<close>.\<close>

datatype ('r, 'u, 'f) parse_result =
    Success jsonvalue jsonvalue
  | Failure "('r, 'u, 'f) err"

section \<open>String primitives of the host language\<close>

text \<open>
  White space as \<open>trim\<close>, \<open>trimEnd\<close> and the regular-expression class \<open>\s\<close> understand it,
  among the code units below 256: tab, line feed, vertical tab, form feed, carriage
  return, space and no-break space.
\<close>

definition isWhiteSpace :: "char \<Rightarrow> bool" where
  "isWhiteSpace c =
     (c = CHR 0x09 \<or> c = CHR 0x0A \<or> c = CHR 0x0B \<or> c = CHR 0x0C \<or> c = CHR 0x0D
      \<or> c = CHR 0x20 \<or> c = CHR 0xA0)"

definition trimEnd :: "string \<Rightarrow> string" where
  "trimEnd s = rev (dropWhile isWhiteSpace (rev s))"

definition trim :: "string \<Rightarrow> string" where
  "trim s = dropWhile isWhiteSpace (trimEnd s)"

text \<open>\<open>s.split('\n')\<close>: always at least one piece.\<close>

fun split_lines :: "string \<Rightarrow> string list" where
  "split_lines [] = [[]]"
| "split_lines (c # cs) =
     (if c = CHR 0x0A then [] # split_lines cs
      else (case split_lines cs of
              [] \<Rightarrow> [[c]]
            | l # ls \<Rightarrow> (c # l) # ls))"

text \<open>\<open>xs.join('\n')\<close>.\<close>

fun join_lines :: "string list \<Rightarrow> string" where
  "join_lines [] = []"
| "join_lines [l] = l"
| "join_lines (l # ls) = l @ CHR 0x0A # join_lines ls"

definition endsWith :: "string \<Rightarrow> char \<Rightarrow> bool" where
  "endsWith s c = (s \<noteq> [] \<and> last s = c)"

section \<open>Partial decoder: the line heuristic and the prefix search\<close>

definition quoteCount :: "string \<Rightarrow> nat" where
  "quoteCount s = length (filter (\<lambda>c. c = CHR 0x22) s)"

definition looksComplete :: "string \<Rightarrow> bool" where
  "looksComplete line =
     (let trimmed = trimEnd line in
      if length trimmed = 0 then True
      else if endsWith trimmed CHR '':'' then True
      else if quoteCount trimmed mod 2 \<noteq> 0 then False
      else True)"

text \<open>
  One iteration of the loop of \<open>repairPartialToon\<close> at index \<open>i\<close>: \<open>Some candidate\<close> when the
  iteration returns, \<open>None\<close> when it goes on to the next index. \<open>partialLines[length - 1]\<close>
  is \<open>undefined\<close> on the empty slice.
\<close>

definition repair_iteration :: "string list \<Rightarrow> nat \<Rightarrow> string option" where
  "repair_iteration lines i =
     (let partialLines = take i lines;
          candidate = trimEnd (join_lines partialLines)
      in if length candidate = 0 then None
         else (let lastLine = (if partialLines = [] then None else Some (last partialLines))
               in case lastLine of
                    None \<Rightarrow> None
                  | Some l \<Rightarrow> if looksComplete l then Some candidate else None))"

text \<open>The loop \<open>for (let i = lines.length; i >= 0; i--)\<close>, entered at index \<open>i\<close>.\<close>

fun repair_loop :: "string list \<Rightarrow> nat \<Rightarrow> string option" where
  "repair_loop lines 0 = repair_iteration lines 0"
| "repair_loop lines (Suc n) =
     (case repair_iteration lines (Suc n) of
        Some candidate \<Rightarrow> Some candidate
      | None \<Rightarrow> repair_loop lines n)"

definition repairPartialToon :: "string \<Rightarrow> string option" where
  "repairPartialToon text =
     (if text = [] \<or> length (trim text) = 0 then None
      else (let lines = split_lines text in repair_loop lines (length lines)))"

section \<open>Secure decoder\<close>

text \<open>
  \<open>Object.prototype.hasOwnProperty.call(v, key)\<close> for a key that is neither an array index
  nor \<open>length\<close> (the three keys used below are of that kind). The receiver is converted to
  an object first, which raises a \<open>TypeError\<close> on \<open>null\<close>; the wrapper objects of booleans,
  numbers and strings, and arrays, own no such key.
\<close>

definition nullReceiverMessage :: string where
  "nullReceiverMessage = ''Cannot convert undefined or null to object''"

fun hasOwnProperty :: "jsonvalue \<Rightarrow> string \<Rightarrow> ('r, 'u, 'f) err + bool" where
  "hasOwnProperty JNull key = Inl (TypeError nullReceiverMessage)"
| "hasOwnProperty (JObject props) key = Inr (map_of props key \<noteq> None)"
| "hasOwnProperty v key = Inr False"

text \<open>The property read \<open>node[key]\<close> on an own property.\<close>

fun getProperty :: "jsonvalue \<Rightarrow> string \<Rightarrow> jsonvalue option" where
  "getProperty (JObject props) key = map_of props key"
| "getProperty v key = None"

text \<open>\<open>v !== null && typeof v === 'object'\<close>.\<close>

fun isObjectLike :: "jsonvalue \<Rightarrow> bool" where
  "isObjectLike (JArray xs) = True"
| "isObjectLike (JObject props) = True"
| "isObjectLike v = False"

text \<open>The values \<open>node[key]\<close> that \<open>for (const key in node)\<close> visits, in order.\<close>

fun ownValues :: "jsonvalue \<Rightarrow> jsonvalue list" where
  "ownValues (JArray xs) = xs"
| "ownValues (JObject props) = map snd props"
| "ownValues v = []"

definition forbiddenMessage :: string where
  "forbiddenMessage = ''Object contains forbidden prototype property''"

text \<open>
  The body of \<open>for (const node of nodes)\<close> in \<open>filter\<close> for one node: the error it throws,
  or the values it pushes on \<open>next\<close>.
\<close>

definition scan_node :: "jsonvalue \<Rightarrow> ('r, 'u, 'f) err + jsonvalue list" where
  "scan_node node =
     (if \<not> isObjectLike node then Inr []
      else case hasOwnProperty node ''__proto__'' of
        Inl e \<Rightarrow> Inl e
      | Inr True \<Rightarrow> Inl (SyntaxError forbiddenMessage)
      | Inr False \<Rightarrow>
          (case (case hasOwnProperty node ''constructor'' of
                   Inl e \<Rightarrow> Inl e
                 | Inr False \<Rightarrow> Inr False
                 | Inr True \<Rightarrow>
                     (case getProperty node ''constructor'' of
                        None \<Rightarrow> Inr False
                      | Some c \<Rightarrow> hasOwnProperty c ''prototype'')) of
             Inl e \<Rightarrow> Inl e
           | Inr True \<Rightarrow> Inl (SyntaxError forbiddenMessage)
           | Inr False \<Rightarrow> Inr (filter isObjectLike (ownValues node))))"

text \<open>The \<open>for\<close> loop over one level, with the \<open>next\<close> array built so far.\<close>

fun scan_level ::
  "jsonvalue list \<Rightarrow> jsonvalue list \<Rightarrow> ('r, 'u, 'f) err + jsonvalue list" where
  "scan_level [] next = Inr next"
| "scan_level (node # nodes) next =
     (case scan_node node of
        Inl e \<Rightarrow> Inl e
      | Inr pushed \<Rightarrow> scan_level nodes (next @ pushed))"

text \<open>
  The \<open>while (next.length)\<close> loop runs one level of the tree per round. It ends because
  every node pushes only values that are strictly smaller than itself.
\<close>

definition weight :: "jsonvalue list \<Rightarrow> nat" where
  "weight vs = (\<Sum>v\<leftarrow>vs. Suc (size v))"

lemma weight_filter_le: "weight (filter P vs) \<le> weight vs"
  by (induction vs) (auto simp: weight_def)

lemma weight_append: "weight (xs @ ys) = weight xs + weight ys"
  by (simp add: weight_def)

lemma weight_ownValues: "isObjectLike node \<Longrightarrow> weight (ownValues node) < Suc (size node)"
proof (cases node)
  case (JArray xs)
  have "(\<Sum>v\<leftarrow>xs. Suc (size v)) = size_list size xs"
    by (induction xs) auto
  with JArray show ?thesis by (simp add: weight_def)
next
  case (JObject ps)
  have "(\<Sum>v\<leftarrow>map snd ps. Suc (size v)) \<le> size_list (size_prod (\<lambda>x. 0) size) ps"
    by (induction ps) auto
  with JObject show ?thesis by (simp add: weight_def)
qed simp_all

lemma scan_node_weight:
  fixes node :: jsonvalue
  assumes "(scan_node node :: ('r, 'u, 'f) err + jsonvalue list) = Inr pushed"
  shows "weight pushed < weight [node]"
proof (cases "isObjectLike node")
  case False
  with assms show ?thesis by (simp add: scan_node_def weight_def)
next
  case True
  with assms have "pushed = filter isObjectLike (ownValues node)"
    by (auto simp: scan_node_def split: sum.splits bool.splits option.splits)
  with weight_filter_le [of isObjectLike "ownValues node"] weight_ownValues [OF True]
  show ?thesis by (simp add: weight_def)
qed

lemma scan_level_weight:
  fixes nodes :: "jsonvalue list"
  assumes "(scan_level nodes next :: ('r, 'u, 'f) err + jsonvalue list) = Inr next'"
  shows "weight next' + length nodes \<le> weight next + weight nodes"
  using assms
proof (induction nodes arbitrary: "next")
  case Nil
  then show ?case by simp
next
  case (Cons node nodes)
  from Cons.prems obtain pushed
    where p: "(scan_node node :: ('r, 'u, 'f) err + jsonvalue list) = Inr pushed"
      and r: "(scan_level nodes (next @ pushed) :: ('r, 'u, 'f) err + jsonvalue list) = Inr next'"
    by (auto split: sum.splits)
  from scan_node_weight [OF p] Cons.IH [OF r] show ?case
    by (simp add: weight_append weight_def)
qed

function filter_loop :: "jsonvalue list \<Rightarrow> ('r, 'u, 'f) err + unit" where
  "filter_loop next =
     (if length next = 0 then Inr ()
      else case scan_level next [] of
             Inl e \<Rightarrow> Inl e
           | Inr next' \<Rightarrow> filter_loop next')"
  by pat_completeness auto
termination
proof (relation "measure weight")
  show "wf (measure weight)" by simp
next
  fix "next" :: "jsonvalue list" and next' :: "jsonvalue list"
  assume a: "\<not> length next = 0"
    and b: "(scan_level next [] :: ('r, 'u, 'f) err + jsonvalue list) = Inr next'"
  from scan_level_weight [OF b] a show "(next', next) \<in> measure weight"
    by (cases "next") (simp_all add: weight_def)
qed

declare filter_loop.simps [simp del]

text \<open>\<open>filter(obj)\<close>: the scan started at \<open>[obj]\<close>; it returns \<open>obj\<close> itself.\<close>

definition filter_obj :: "jsonvalue \<Rightarrow> ('r, 'u, 'f) err + jsonvalue" where
  "filter_obj obj =
     (case filter_loop [obj] of
        Inl e \<Rightarrow> Inl e
      | Inr u \<Rightarrow> Inr obj)"

text \<open>
  The two patterns \<open>/"__proto__"\s*:/\<close> and \<open>/"constructor"\s*:/\<close>. \<open>quotedKeyAt key s\<close>
  matches at the start of \<open>s\<close>: the key in double quotes, any run of white space, a colon
  (a colon is not white space, so the run is matched whole). \<open>regex_test\<close> tries every
  start position, as \<open>RegExp.prototype.test\<close> does without the global flag.
\<close>

definition quotedKeyAt :: "string \<Rightarrow> string \<Rightarrow> bool" where
  "quotedKeyAt key s =
     (let quoted = CHR 0x22 # key @ [CHR 0x22] in
      take (length quoted) s = quoted \<and>
      (case dropWhile isWhiteSpace (drop (length quoted) s) of
         [] \<Rightarrow> False
       | c # rest \<Rightarrow> c = CHR '':''))"

fun regex_test :: "(string \<Rightarrow> bool) \<Rightarrow> string \<Rightarrow> bool" where
  "regex_test matchAt [] = matchAt []"
| "regex_test matchAt (c # cs) = (matchAt (c # cs) \<or> regex_test matchAt cs)"

definition suspectProtoRx :: "string \<Rightarrow> bool" where
  "suspectProtoRx text = regex_test (quotedKeyAt ''__proto__'') text"

definition suspectConstructorRx :: "string \<Rightarrow> bool" where
  "suspectConstructorRx text = regex_test (quotedKeyAt ''constructor'') text"

text \<open>
  \<open>decode\<close> is the grammar decoder of the external package: it returns the decoded value
  or throws. It is a parameter of everything that decodes.
\<close>

definition secureToonParse ::
  "(string \<Rightarrow> ('r, 'u, 'f) err + jsonvalue) \<Rightarrow> string \<Rightarrow> ('r, 'u, 'f) err + jsonvalue" where
  "secureToonParse decode text =
     (case decode text of
        Inl e \<Rightarrow> Inl e
      | Inr obj \<Rightarrow>
          if \<not> isObjectLike obj then Inr obj
          else if suspectProtoRx text = False \<and> suspectConstructorRx text = False then Inr obj
          else filter_obj obj)"

section \<open>Result wrapper\<close>

text \<open>
  A schema is represented by what the validation helper of the package does with it:
  \<open>validateTypes\<close> returns the validated value or throws, \<open>safeValidateTypes\<close> returns a
  result object. \<open>None\<close> is \<open>schema == null\<close>.
\<close>

definition parseToon_try ::
  "(string \<Rightarrow> ('r, 'u, 'f) err + jsonvalue) \<Rightarrow> string \<Rightarrow>
   (jsonvalue \<Rightarrow> ('r, 'u, 'f) err + jsonvalue) option \<Rightarrow> ('r, 'u, 'f) err + jsonvalue" where
  "parseToon_try decode text schema =
     (case secureToonParse decode text of
        Inl e \<Rightarrow> Inl e
      | Inr v \<Rightarrow>
          (case schema of
             None \<Rightarrow> Inr v
           | Some validateTypes \<Rightarrow> validateTypes v))"

definition parseToon ::
  "(string \<Rightarrow> ('r, 'u, 'f) err + jsonvalue) \<Rightarrow> string \<Rightarrow>
   (jsonvalue \<Rightarrow> ('r, 'u, 'f) err + jsonvalue) option \<Rightarrow> ('r, 'u, 'f) err + jsonvalue" where
  "parseToon decode text schema =
     (case parseToon_try decode text schema of
        Inr v \<Rightarrow> Inr v
      | Inl error \<Rightarrow>
          if isJSONParseError error \<or> isTypeValidationError error then Inl error
          else Inl (JSONParseError text error))"

definition safeParseToon ::
  "(string \<Rightarrow> ('r, 'u, 'f) err + jsonvalue) \<Rightarrow> string \<Rightarrow>
   (jsonvalue \<Rightarrow> ('r, 'u, 'f) parse_result) option \<Rightarrow> ('r, 'u, 'f) parse_result" where
  "safeParseToon decode text schema =
     (case secureToonParse decode text of
        Inr v \<Rightarrow>
          (case schema of
             None \<Rightarrow> Success v v
           | Some safeValidateTypes \<Rightarrow> safeValidateTypes v)
      | Inl error \<Rightarrow>
          Failure (if isJSONParseError error then error else JSONParseError text error))"

definition isParsableToon :: "(string \<Rightarrow> ('r, 'u, 'f) err + jsonvalue) \<Rightarrow> string \<Rightarrow> bool" where
  "isParsableToon decode input = (case secureToonParse decode input of Inr v \<Rightarrow> True | Inl e \<Rightarrow> False)"

section \<open>Partial decoder\<close>

datatype parse_state = UndefinedInput | SuccessfulParse | RepairedParse | FailedParse

record partial_outcome =
  outcome_value :: "jsonvalue option"
  outcome_state :: parse_state

text \<open>The input is \<open>string | undefined\<close>; the \<open>value\<close> field is \<open>JSONValue | undefined\<close>.\<close>

definition parsePartialToon ::
  "(string \<Rightarrow> ('r, 'u, 'f) err + jsonvalue) \<Rightarrow> string option \<Rightarrow> partial_outcome" where
  "parsePartialToon decode toonText =
     (case toonText of
        None \<Rightarrow> \<lparr>outcome_value = None, outcome_state = UndefinedInput\<rparr>
      | Some text \<Rightarrow>
          (case safeParseToon decode text None of
             Success v raw \<Rightarrow> \<lparr>outcome_value = Some v, outcome_state = SuccessfulParse\<rparr>
           | Failure e \<Rightarrow>
               (case repairPartialToon text of
                  None \<Rightarrow> \<lparr>outcome_value = None, outcome_state = FailedParse\<rparr>
                | Some repairedText \<Rightarrow>
                    if repairedText \<noteq> text then
                      (case safeParseToon decode repairedText None of
                         Success v raw \<Rightarrow>
                           \<lparr>outcome_value = Some v, outcome_state = RepairedParse\<rparr>
                       | Failure e' \<Rightarrow>
                           \<lparr>outcome_value = None, outcome_state = FailedParse\<rparr>)
                    else \<lparr>outcome_value = None, outcome_state = FailedParse\<rparr>)))"

section \<open>Orchestrator\<close>

datatype ObjectFormat = JsonFormat | ToonFormat

record ('r, 'u, 'f) generation_context =
  response :: 'r
  usage :: 'u
  finishReason :: 'f

text \<open>The result object of \<open>outputStrategy.validateFinalResult\<close>.\<close>

datatype ('r, 'u, 'f, 'a) validation_result =
    ValidationSuccess 'a
  | ValidationFailure "('r, 'u, 'f) err"

definition couldNotParse :: string where
  "couldNotParse = ''No object generated: could not parse the response.''"

definition didNotMatch :: string where
  "didNotMatch = ''No object generated: response did not match schema.''"

text \<open>
  \<open>safeParseJSON\<close> (the sibling parser of the package) and \<open>validateFinalResult\<close> (called
  with the parsed value and \<open>{text, response, usage}\<close>) are parameters; both return
  result objects, as their types declare, so the two errors constructed here are the only
  ones this function throws.
\<close>

definition parseAndValidateObjectResult ::
  "(string \<Rightarrow> ('r, 'u, 'f) err + jsonvalue) \<Rightarrow>
   (string \<Rightarrow> ('r, 'u, 'f) parse_result) \<Rightarrow>
   (jsonvalue \<Rightarrow> string \<Rightarrow> 'r \<Rightarrow> 'u \<Rightarrow> ('r, 'u, 'f, 'a) validation_result) \<Rightarrow>
   string \<Rightarrow> ObjectFormat \<Rightarrow> ('r, 'u, 'f) generation_context \<Rightarrow> ('r, 'u, 'f) err + 'a" where
  "parseAndValidateObjectResult decode safeParseJSON validateFinalResult result format ctx =
     (let parseResult =
            (if format = ToonFormat then safeParseToon decode result None
             else safeParseJSON result)
      in case parseResult of
           Failure e \<Rightarrow>
             Inl (NoObjectGeneratedError couldNotParse e result
                    (response ctx) (usage ctx) (finishReason ctx))
         | Success v raw \<Rightarrow>
             (case validateFinalResult v result (response ctx) (usage ctx) of
                ValidationFailure e \<Rightarrow>
                  Inl (NoObjectGeneratedError didNotMatch e result
                         (response ctx) (usage ctx) (finishReason ctx))
              | ValidationSuccess x \<Rightarrow> Inr x))"

text \<open>
  \<open>repairText\<close> is \<open>RepairTextFunction | undefined\<close>; called with \<open>{text, error}\<close> it
  returns the repaired text or \<open>null\<close>. The function returns, next to its outcome, the
  list of the calls it made to \<open>repairText\<close>, each with its two arguments.
\<close>

definition parseAndValidateObjectResultWithRepair ::
  "(string \<Rightarrow> ('r, 'u, 'f) err + jsonvalue) \<Rightarrow>
   (string \<Rightarrow> ('r, 'u, 'f) parse_result) \<Rightarrow>
   (jsonvalue \<Rightarrow> string \<Rightarrow> 'r \<Rightarrow> 'u \<Rightarrow> ('r, 'u, 'f, 'a) validation_result) \<Rightarrow>
   string \<Rightarrow> (string \<Rightarrow> ('r, 'u, 'f) err \<Rightarrow> string option) option \<Rightarrow>
   ObjectFormat \<Rightarrow> ('r, 'u, 'f) generation_context \<Rightarrow>
   (string \<times> ('r, 'u, 'f) err) list \<times> (('r, 'u, 'f) err + 'a)" where
  "parseAndValidateObjectResultWithRepair decode safeParseJSON validateFinalResult
       result repairText format ctx =
     (case parseAndValidateObjectResult decode safeParseJSON validateFinalResult
             result format ctx of
        Inr x \<Rightarrow> ([], Inr x)
      | Inl error \<Rightarrow>
          (case repairText of
             None \<Rightarrow> ([], Inl error)
           | Some repair \<Rightarrow>
               (case error of
                  NoObjectGeneratedError m cause t r u f \<Rightarrow>
                    if isJSONParseError cause \<or> isTypeValidationError cause then
                      (case repair result cause of
                         None \<Rightarrow> ([(result, cause)], Inl error)
                       | Some repairedText \<Rightarrow>
                           ([(result, cause)],
                            parseAndValidateObjectResult decode safeParseJSON
                              validateFinalResult repairedText format ctx))
                    else ([], Inl error)
                | _ \<Rightarrow> ([], Inl error))))"

section \<open>The tree scan against its description\<close>

text \<open>
  The description of the scan speaks of the nodes reachable from the root, of a node that
  owns \<open>__proto__\<close>, and of a node that owns a \<open>constructor\<close> whose value owns
  \<open>prototype\<close>. \<open>subvalues\<close> lists a value and everything below it. A node whose
  \<open>constructor\<close> is \<open>null\<close> is the case the description does not mention.
\<close>

fun subvalues :: "jsonvalue \<Rightarrow> jsonvalue list" where
  "subvalues (JArray xs) = JArray xs # concat (map subvalues xs)"
| "subvalues (JObject props) = JObject props # concat (map (\<lambda>p. subvalues (snd p)) props)"
| "subvalues v = [v]"

definition ownsProto :: "jsonvalue \<Rightarrow> bool" where
  "ownsProto node = (case node of JObject props \<Rightarrow> map_of props ''__proto__'' \<noteq> None | _ \<Rightarrow> False)"

definition constructorOwnsPrototype :: "jsonvalue \<Rightarrow> bool" where
  "constructorOwnsPrototype node =
     (case node of
        JObject props \<Rightarrow>
          (case map_of props ''constructor'' of
             Some (JObject cprops) \<Rightarrow> map_of cprops ''prototype'' \<noteq> None
           | _ \<Rightarrow> False)
      | _ \<Rightarrow> False)"

definition forbidden_node :: "jsonvalue \<Rightarrow> bool" where
  "forbidden_node node = (ownsProto node \<or> constructorOwnsPrototype node)"

definition nullConstructor :: "jsonvalue \<Rightarrow> bool" where
  "nullConstructor node =
     (case node of JObject props \<Rightarrow> map_of props ''constructor'' = Some JNull | _ \<Rightarrow> False)"

text \<open>
  What a node that passes its checks pushes, a node with nothing to object to, and the
  nodes reachable from a level of the scan.
\<close>

definition pushedBy :: "jsonvalue \<Rightarrow> jsonvalue list" where
  "pushedBy node = filter isObjectLike (ownValues node)"

definition clean :: "jsonvalue \<Rightarrow> bool" where
  "clean node = (\<not> forbidden_node node \<and> \<not> nullConstructor node)"

definition reach :: "jsonvalue list \<Rightarrow> jsonvalue set" where
  "reach level = (\<Union>v \<in> set level. set (subvalues v))"

section \<open>Stand-ins for concrete instances\<close>

text \<open>The text \<open>"constructor": null\<close>: the key in double quotes, a colon, the value.\<close>

definition null_constructor_text :: string where
  "null_constructor_text = CHR 0x22 # ''constructor'' @ CHR 0x22 # '': null''"

text \<open>
  The theorems below hold for every decoder. Where one of them is instantiated at a
  concrete text, this small decoder is used: it accepts the four texts listed and rejects
  every other text with a syntax error.
\<close>

definition sample_decode :: "string \<Rightarrow> (unit, unit, unit) err + jsonvalue" where
  "sample_decode text =
     (if text = ''a: 1'' then Inr (JObject [(''a'', JNumber 1)])
      else if text = ''hello'' then Inr (JString ''hello'')
      else if text = ''__proto__: 1'' then Inr (JObject [(''__proto__'', JNumber 1)])
      else if text = null_constructor_text then Inr (JObject [(''constructor'', JNull)])
      else Inl (SyntaxError ''Invalid TOON''))"

text \<open>
  A buffer cut in the middle of a quoted string on its third line; its second line
  announces three items and holds two.
\<close>

definition truncated_sample :: string where
  "truncated_sample =
     ''a: 1'' @ CHR 0x0A # ''items[3]: x,y'' @ CHR 0x0A # ''b: '' @ [CHR 0x22, CHR ''z'']"

text \<open>
  Stand-in collaborators for the concrete instances of the orchestrator: a JSON parser
  that rejects every text, a validator that accepts one object, fails with a plain error
  on one string and with a type validation error otherwise, a context without content,
  a repair function that declines and one that answers \<open>hello\<close>.
\<close>

definition sample_json :: "string \<Rightarrow> (unit, unit, unit) parse_result" where
  "sample_json t = Failure (JSONParseError t (SyntaxError ''Unexpected token''))"

definition sample_validate ::
  "jsonvalue \<Rightarrow> string \<Rightarrow> unit \<Rightarrow> unit \<Rightarrow> (unit, unit, unit, jsonvalue) validation_result" where
  "sample_validate v t r u =
     (if v = JObject [(''a'', JNumber 1)] then ValidationSuccess v
      else if v = JString ''hello'' then ValidationFailure (OtherError ''validator failed'')
      else ValidationFailure (TypeValidationError v (OtherError ''expected a number'')))"

definition sample_context :: "(unit, unit, unit) generation_context" where
  "sample_context = \<lparr>response = (), usage = (), finishReason = ()\<rparr>"

definition decline_repair :: "string \<Rightarrow> (unit, unit, unit) err \<Rightarrow> string option" where
  "decline_repair t e = None"

definition hello_repair :: "string \<Rightarrow> (unit, unit, unit) err \<Rightarrow> string option" where
  "hello_repair t e = Some ''hello''"

section \<open>Properties of the line heuristic\<close>

lemma quoteCount_trimEnd: "quoteCount (trimEnd line) = quoteCount line"
proof -
  have "filter (\<lambda>c. c = CHR 0x22) (dropWhile isWhiteSpace xs) = filter (\<lambda>c. c = CHR 0x22) xs" for xs
    by (induction xs) (auto simp: isWhiteSpace_def)
  then show ?thesis
    by (simp add: quoteCount_def trimEnd_def flip: rev_filter)
qed

text \<open>
  Claim C5. Let the trimmed line be the line without its trailing white space. A line
  looks complete exactly when the trimmed line is empty, or its last character is a
  colon, or it holds an even number of double quotes (zero included). Said of the line
  itself: when all its characters are white space, or the last character before the
  trailing white space is a colon, or the line holds an even number of double quotes. So
  a line that is not blank is judged incomplete only through an odd count of quotes.
\<close>

theorem looksComplete_iff:
  "looksComplete line =
     (let trimmed = rev (dropWhile (\<lambda>c. c \<in> {CHR 0x09, CHR 0x0A, CHR 0x0B, CHR 0x0C, CHR 0x0D,
                                             CHR 0x20, CHR 0xA0}) (rev line))
      in trimmed = [] \<or> last trimmed = CHR '':''
         \<or> even (length (filter (\<lambda>c. c = CHR 0x22) trimmed)))
   \<and> looksComplete line =
     ((\<forall>c \<in> set line. c \<in> {CHR 0x09, CHR 0x0A, CHR 0x0B, CHR 0x0C, CHR 0x0D, CHR 0x20, CHR 0xA0})
      \<or> last (rev (dropWhile (\<lambda>c. c \<in> {CHR 0x09, CHR 0x0A, CHR 0x0B, CHR 0x0C, CHR 0x0D,
                                            CHR 0x20, CHR 0xA0}) (rev line))) = CHR '':''
      \<or> even (length (filter (\<lambda>c. c = CHR 0x22) line)))"
proof -
  let ?ws = "\<lambda>c. c \<in> {CHR 0x09, CHR 0x0A, CHR 0x0B, CHR 0x0C, CHR 0x0D, CHR 0x20, CHR 0xA0}"
  let ?t = "rev (dropWhile ?ws (rev line))"
  have ws: "?ws = isWhiteSpace" by (rule ext) (simp add: isWhiteSpace_def)
  have t: "?t = trimEnd line" by (simp only: trimEnd_def ws)
  have a: "looksComplete line =
             (?t = [] \<or> last ?t = CHR '':'' \<or> even (length (filter (\<lambda>c. c = CHR 0x22) ?t)))"
    unfolding t by (auto simp: looksComplete_def Let_def endsWith_def quoteCount_def)
  have e: "(?t = []) = (\<forall>c \<in> set line. ?ws c)"
    by (simp add: dropWhile_eq_Nil_conv)
  have q: "length (filter (\<lambda>c. c = CHR 0x22) ?t) = length (filter (\<lambda>c. c = CHR 0x22) line)"
    using quoteCount_trimEnd [of line] unfolding t by (simp add: quoteCount_def)
  from a have b: "looksComplete line =
     ((\<forall>c \<in> set line. ?ws c) \<or> last ?t = CHR '':''
      \<or> even (length (filter (\<lambda>c. c = CHR 0x22) line)))"
    unfolding e q .
  from a b show ?thesis unfolding Let_def by blast
qed

text \<open>
  Instances: a line cut inside a quoted string is incomplete; an array header followed by
  blanks is complete.
\<close>

theorem looksComplete_iff_witness:
  "\<not> looksComplete (''b: '' @ [CHR 0x22, CHR ''z'']) \<and> looksComplete ''items[2]:  ''"
proof -
  let ?ws = "\<lambda>c. c \<in> {CHR 0x09, CHR 0x0A, CHR 0x0B, CHR 0x0C, CHR 0x0D, CHR 0x20, CHR 0xA0}"
  have r1: "\<not> (let trimmed = rev (dropWhile ?ws (rev (''b: '' @ [CHR 0x22, CHR ''z''])))
      in trimmed = [] \<or> last trimmed = CHR '':''
         \<or> even (length (filter (\<lambda>c. c = CHR 0x22) trimmed)))"
    by code_simp
  have r2: "(let trimmed = rev (dropWhile ?ws (rev ''items[2]:  ''))
      in trimmed = [] \<or> last trimmed = CHR '':''
         \<or> even (length (filter (\<lambda>c. c = CHR 0x22) trimmed)))"
    by code_simp
  from r1 looksComplete_iff [of "''b: '' @ [CHR 0x22, CHR ''z'']", THEN conjunct1]
  have 1: "\<not> looksComplete (''b: '' @ [CHR 0x22, CHR ''z''])" by blast
  from r2 looksComplete_iff [of "''items[2]:  ''", THEN conjunct1]
  have 2: "looksComplete ''items[2]:  ''" by blast
  from 1 2 show ?thesis by blast
qed

section \<open>Properties of the partial decoder\<close>

text \<open>
  Claim C7. On \<open>undefined\<close> the partial decoder answers \<open>undefined-input\<close> with no value.
  No text gets that state: a text is always parsed, and a text that is empty or all white
  space is decided by that parse alone (the repair declines it), so it ends in
  \<open>successful-parse\<close> or \<open>failed-parse\<close>.
\<close>

theorem parsePartialToon_undefined_input:
  "parsePartialToon decode None = \<lparr>outcome_value = None, outcome_state = UndefinedInput\<rparr>
   \<and> outcome_state (parsePartialToon decode (Some text)) \<noteq> UndefinedInput
   \<and> (trim text = [] \<longrightarrow>
        parsePartialToon decode (Some text) =
          (case safeParseToon decode text None of
             Success v raw \<Rightarrow> \<lparr>outcome_value = Some v, outcome_state = SuccessfulParse\<rparr>
           | Failure e \<Rightarrow> \<lparr>outcome_value = None, outcome_state = FailedParse\<rparr>))"
  by (simp add: parsePartialToon_def repairPartialToon_def split: parse_result.splits option.splits)

theorem parsePartialToon_undefined_input_witness:
  "trim ''  '' = [] \<and>
   parsePartialToon sample_decode (Some ''  '') = \<lparr>outcome_value = None, outcome_state = FailedParse\<rparr>
   \<and> parsePartialToon sample_decode (Some []) = \<lparr>outcome_value = None, outcome_state = FailedParse\<rparr>"
proof -
  have t: "trim ''  '' = []" by code_simp
  have t0: "trim [] = []" by code_simp
  have f: "safeParseToon sample_decode ''  '' None = Failure (JSONParseError ''  '' (SyntaxError ''Invalid TOON''))"
    by code_simp
  have f0: "safeParseToon sample_decode [] None = Failure (JSONParseError [] (SyntaxError ''Invalid TOON''))"
    by code_simp
  from parsePartialToon_undefined_input [of sample_decode "''  ''"]
    parsePartialToon_undefined_input [of sample_decode "[]"] t t0 f f0
  show ?thesis by simp
qed

text \<open>
  Claim C8. For every input, \<open>undefined\<close> included, the outcome carries a value exactly
  when its state is \<open>successful-parse\<close> or \<open>repaired-parse\<close>. The state is one constructor
  of a four-valued type, so in the two other states the value is \<open>undefined\<close>.
\<close>

theorem parsePartialToon_value_iff_state:
  "(outcome_value (parsePartialToon decode toonText) \<noteq> None) =
     (outcome_state (parsePartialToon decode toonText) = SuccessfulParse
      \<or> outcome_state (parsePartialToon decode toonText) = RepairedParse)
   \<and> (outcome_value (parsePartialToon decode toonText) = None) =
     (outcome_state (parsePartialToon decode toonText) = UndefinedInput
      \<or> outcome_state (parsePartialToon decode toonText) = FailedParse)"
  by (simp add: parsePartialToon_def split: parse_result.splits option.splits)

lemma split_lines_not_Nil: "split_lines s \<noteq> []"
  by (induction s) (auto split: list.splits)

lemma join_lines_Cons: "ls \<noteq> [] \<Longrightarrow> join_lines (l # ls) = l @ CHR 0x0A # join_lines ls"
  by (cases ls) simp_all

lemma join_split_lines: "join_lines (split_lines s) = s"
proof (induction s)
  case Nil
  show ?case by simp
next
  case (Cons c cs)
  show ?case
  proof (cases "c = CHR 0x0A")
    case True
    with Cons split_lines_not_Nil [of cs] show ?thesis by (simp add: join_lines_Cons)
  next
    case False
    obtain l ls where sp: "split_lines cs = l # ls"
      using split_lines_not_Nil [of cs] by (cases "split_lines cs") auto
    with Cons have "join_lines (l # ls) = cs" by simp
    then have "join_lines ((c # l) # ls) = c # cs" by (cases ls) auto
    with False sp show ?thesis by simp
  qed
qed

lemma trimEnd_fixed_not_Nil:
  assumes "s \<noteq> []" and "trimEnd s = s"
  shows "trim s \<noteq> []"
proof -
  from assms have "dropWhile isWhiteSpace (rev s) = rev s"
    by (metis rev_rev_ident trimEnd_def)
  with assms(1) have nw: "\<not> isWhiteSpace (last s)"
    by (metis hd_dropWhile hd_rev rev_is_Nil_conv)
  have "last t \<in> set (dropWhile isWhiteSpace t)" if "t \<noteq> []" "\<not> isWhiteSpace (last t)" for t
    using that by (induction t) (auto split: if_splits)
  with assms nw show ?thesis by (auto simp: trim_def)
qed

text \<open>
  Claim C10. Let a text be non-empty, without trailing white space, fail its full parse,
  and have a last line that looks complete. Then the first iteration of the search (all
  lines) already returns, and what it returns is the text itself; the comparison with the
  text skips the second parse, and the outcome is \<open>failed-parse\<close> with no value. No
  shorter prefix is looked at.
\<close>

theorem parsePartialToon_complete_last_line_fails:
  assumes nonempty: "text \<noteq> []"
    and notrail: "trimEnd text = text"
    and fails: "safeParseToon decode text None = Failure e"
    and complete: "looksComplete (last (split_lines text))"
  shows "repair_iteration (split_lines text) (length (split_lines text)) = Some text
    \<and> repairPartialToon text = Some text
    \<and> parsePartialToon decode (Some text) = \<lparr>outcome_value = None, outcome_state = FailedParse\<rparr>"
proof -
  let ?lines = "split_lines text"
  have ne: "?lines \<noteq> []" by (rule split_lines_not_Nil)
  have it: "repair_iteration ?lines (length ?lines) = Some text"
    using ne nonempty notrail complete by (simp add: repair_iteration_def join_split_lines)
  obtain n where n: "length ?lines = Suc n" using ne by (cases ?lines) auto
  have "repair_loop ?lines (length ?lines) = Some text"
    using it unfolding n by simp
  with trimEnd_fixed_not_Nil [OF nonempty notrail] nonempty
  have rp: "repairPartialToon text = Some text"
    by (simp add: repairPartialToon_def)
  with fails it show ?thesis by (simp add: parsePartialToon_def)
qed

theorem parsePartialToon_complete_last_line_fails_witness:
  "parsePartialToon sample_decode (Some (''a: 1'' @ CHR 0x0A # ''b: ?''))
     = \<lparr>outcome_value = None, outcome_state = FailedParse\<rparr>
   \<and> repairPartialToon (''a: 1'' @ CHR 0x0A # ''b: ?'') = Some (''a: 1'' @ CHR 0x0A # ''b: ?'')"
proof -
  let ?t = "''a: 1'' @ CHR 0x0A # ''b: ?''"
  have 1: "?t \<noteq> []" by simp
  have 2: "trimEnd ?t = ?t" by code_simp
  have 3: "safeParseToon sample_decode ?t None = Failure (JSONParseError ?t (SyntaxError ''Invalid TOON''))"
    by code_simp
  have 4: "looksComplete (last (split_lines ?t))" by code_simp
  from parsePartialToon_complete_last_line_fails [OF 1 2 3 4] show ?thesis by simp
qed

lemma repair_loop_Some:
  "repair_loop lines i = Some c \<Longrightarrow>
     \<exists>j\<le>i. repair_iteration lines j = Some c
            \<and> (\<forall>k. j < k \<and> k \<le> i \<longrightarrow> repair_iteration lines k = None)"
proof (induction i)
  case 0
  then show ?case by simp
next
  case (Suc n)
  show ?case
  proof (cases "repair_iteration lines (Suc n)")
    case None
    with Suc.prems have "repair_loop lines n = Some c" by simp
    from Suc.IH [OF this] obtain j where j: "j \<le> n" "repair_iteration lines j = Some c"
      "\<forall>k. j < k \<and> k \<le> n \<longrightarrow> repair_iteration lines k = None" by blast
    from j(3) None have "\<forall>k. j < k \<and> k \<le> Suc n \<longrightarrow> repair_iteration lines k = None"
      by (metis le_Suc_eq)
    with j(1,2) show ?thesis by (metis le_Suc_eq)
  next
    case (Some c')
    with Suc.prems have "c' = c" by simp
    with Some show ?thesis by auto
  qed
qed

lemma repair_loop_None_iff:
  "repair_loop lines i = None \<longleftrightarrow> (\<forall>j\<le>i. repair_iteration lines j = None)"
proof (induction i)
  case 0
  show ?case by simp
next
  case (Suc n)
  show ?case
  proof (cases "repair_iteration lines (Suc n)")
    case None
    with Suc show ?thesis by (auto simp: le_Suc_eq)
  next
    case (Some c)
    then show ?thesis by auto
  qed
qed

lemma repair_loop_Some_iff:
  "repair_loop lines i = Some c \<longleftrightarrow>
     (\<exists>j\<le>i. repair_iteration lines j = Some c
            \<and> (\<forall>k. j < k \<and> k \<le> i \<longrightarrow> repair_iteration lines k = None))"
proof
  assume "repair_loop lines i = Some c"
  then show "\<exists>j\<le>i. repair_iteration lines j = Some c
            \<and> (\<forall>k. j < k \<and> k \<le> i \<longrightarrow> repair_iteration lines k = None)"
    by (rule repair_loop_Some)
next
  assume "\<exists>j\<le>i. repair_iteration lines j = Some c
            \<and> (\<forall>k. j < k \<and> k \<le> i \<longrightarrow> repair_iteration lines k = None)"
  then obtain j where j: "j \<le> i" "repair_iteration lines j = Some c"
    "\<forall>k. j < k \<and> k \<le> i \<longrightarrow> repair_iteration lines k = None" by blast
  then show "repair_loop lines i = Some c"
  proof (induction i)
    case 0
    then show ?case by simp
  next
    case (Suc n)
    show ?case
    proof (cases "j = Suc n")
      case True
      with Suc.prems(2) show ?thesis by simp
    next
      case False
      with Suc.prems(1) have le: "j \<le> n" by simp
      then have "repair_iteration lines (Suc n) = None" using Suc.prems(3) by simp
      moreover have "repair_loop lines n = Some c"
        using Suc.IH [OF le Suc.prems(2)] Suc.prems(3) by simp
      ultimately show ?thesis by simp
    qed
  qed
qed

lemma set_split_lines: "l \<in> set (split_lines s) \<Longrightarrow> set l \<subseteq> set s"
proof (induction s arbitrary: l)
  case Nil
  then show ?case by simp
next
  case (Cons c cs)
  show ?case
  proof (cases "c = CHR 0x0A")
    case True
    with Cons show ?thesis by auto
  next
    case False
    obtain h t where sp: "split_lines cs = h # t"
      using split_lines_not_Nil [of cs] by (cases "split_lines cs") auto
    with Cons.prems False have "l = c # h \<or> l \<in> set t" by simp
    then show ?thesis
    proof
      assume "l = c # h"
      with Cons.IH [of h] sp show ?thesis by auto
    next
      assume "l \<in> set t"
      with Cons.IH [of l] sp show ?thesis by auto
    qed
  qed
qed

lemma set_join_lines: "set (join_lines ls) \<subseteq> insert CHR 0x0A (\<Union>l \<in> set ls. set l)"
  by (induction ls rule: join_lines.induct) auto

lemma all_white_trimEnd: "\<forall>c \<in> set s. isWhiteSpace c \<Longrightarrow> trimEnd s = []"
  by (simp add: trimEnd_def)

lemma trim_Nil_all_white:
  assumes "trim s = []"
  shows "\<forall>c \<in> set s. isWhiteSpace c"
proof -
  from assms have a: "\<forall>c \<in> set (trimEnd s). isWhiteSpace c"
    by (simp add: trim_def)
  have "trimEnd s = []"
  proof (rule ccontr)
    assume ne: "trimEnd s \<noteq> []"
    then have d: "dropWhile isWhiteSpace (rev s) \<noteq> []" by (simp add: trimEnd_def)
    then have "\<not> isWhiteSpace (hd (dropWhile isWhiteSpace (rev s)))" by (rule hd_dropWhile)
    moreover have "hd (dropWhile isWhiteSpace (rev s)) \<in> set (trimEnd s)"
      using d by (simp add: trimEnd_def)
    ultimately show False using a by blast
  qed
  then show ?thesis by (simp add: trimEnd_def)
qed

lemma blank_no_candidate:
  assumes "text = [] \<or> length (trim text) = 0"
  shows "repair_iteration (split_lines text) j = None"
proof -
  have "trim [] = []" by (simp add: trim_def trimEnd_def)
  with assms have "trim text = []" by (cases "text = []") simp_all
  then have w: "\<forall>c \<in> set text. isWhiteSpace c" by (rule trim_Nil_all_white)
  have "isWhiteSpace c" if c: "c \<in> set (join_lines (take j (split_lines text)))" for c
  proof -
    from c set_join_lines [of "take j (split_lines text)"]
    have "c = CHR 0x0A \<or> (\<exists>l \<in> set (take j (split_lines text)). c \<in> set l)" by blast
    then show ?thesis
    proof
      assume "c = CHR 0x0A"
      then show ?thesis by (simp add: isWhiteSpace_def)
    next
      assume "\<exists>l \<in> set (take j (split_lines text)). c \<in> set l"
      then obtain l where l: "l \<in> set (take j (split_lines text))" "c \<in> set l" by blast
      from l(1) have "l \<in> set (split_lines text)" by (rule in_set_takeD)
      then have "set l \<subseteq> set text" by (rule set_split_lines)
      with l(2) w show ?thesis by blast
    qed
  qed
  then have "\<forall>c \<in> set (join_lines (take j (split_lines text))). isWhiteSpace c" by blast
  then have "trimEnd (join_lines (take j (split_lines text))) = []"
    by (rule all_white_trimEnd)
  then show ?thesis by (simp add: repair_iteration_def)
qed

lemma repairPartialToon_loop:
  "repairPartialToon text = repair_loop (split_lines text) (length (split_lines text))"
proof (cases "text = [] \<or> length (trim text) = 0")
  case True
  have "repair_iteration (split_lines text) j = None" for j
    using True by (rule blank_no_candidate)
  then have "repair_loop (split_lines text) (length (split_lines text)) = None"
    by (simp add: repair_loop_None_iff)
  moreover from True have "repairPartialToon text = None"
    unfolding repairPartialToon_def by (rule if_P)
  ultimately show ?thesis by simp
next
  case False
  then have "repairPartialToon text =
      (let lines = split_lines text in repair_loop lines (length lines))"
    unfolding repairPartialToon_def by (rule if_not_P)
  then show ?thesis by (simp add: Let_def)
qed

text \<open>
  Claim C1 says that the search goes on to shorter prefixes when the decode of the first
  candidate that looks complete fails. It does not. On \<open>truncated_sample\<close> the full parse
  fails, the search returns the first two lines, their decode fails, and the outcome is
  \<open>failed-parse\<close>, although the first line alone is a candidate that looks complete and
  decodes.
\<close>

theorem parsePartialToon_no_second_candidate:
  "safeParseToon sample_decode truncated_sample None
     = Failure (JSONParseError truncated_sample (SyntaxError ''Invalid TOON''))
   \<and> repairPartialToon truncated_sample = Some (''a: 1'' @ CHR 0x0A # ''items[3]: x,y'')
   \<and> safeParseToon sample_decode (''a: 1'' @ CHR 0x0A # ''items[3]: x,y'') None
     = Failure (JSONParseError (''a: 1'' @ CHR 0x0A # ''items[3]: x,y'') (SyntaxError ''Invalid TOON''))
   \<and> repair_iteration (split_lines truncated_sample) 1 = Some ''a: 1''
   \<and> safeParseToon sample_decode ''a: 1'' None
     = Success (JObject [(''a'', JNumber 1)]) (JObject [(''a'', JNumber 1)])
   \<and> parsePartialToon sample_decode (Some truncated_sample)
     = \<lparr>outcome_value = None, outcome_state = FailedParse\<rparr>"
  by code_simp

text \<open>
  Claim C1, amended. When the full parse of a text fails, the search decodes nothing. A
  prefix of \<open>j\<close> lines qualifies when it is non-empty after trimming and its last line
  looks complete. The search returns a candidate exactly when some prefix qualifies, and
  then it returns the longest qualifying prefix, trimmed; it returns \<open>null\<close> exactly when
  no prefix qualifies. The partial decoder decodes that one candidate, and only if it
  differs from the text: the outcome is \<open>repaired-parse\<close> with the candidate's value when
  that decode succeeds, and \<open>failed-parse\<close> otherwise, with no shorter prefix tried.
\<close>

theorem parsePartialToon_single_candidate:
  assumes fails: "safeParseToon decode text None = Failure e"
  shows "parsePartialToon decode (Some text) =
           (case repairPartialToon text of
              None \<Rightarrow> \<lparr>outcome_value = None, outcome_state = FailedParse\<rparr>
            | Some c \<Rightarrow>
                if c = text then \<lparr>outcome_value = None, outcome_state = FailedParse\<rparr>
                else (case safeParseToon decode c None of
                        Success v raw \<Rightarrow> \<lparr>outcome_value = Some v, outcome_state = RepairedParse\<rparr>
                      | Failure e' \<Rightarrow> \<lparr>outcome_value = None, outcome_state = FailedParse\<rparr>))
       \<and> (let lines = split_lines text;
               candidate = (\<lambda>j. trimEnd (join_lines (take j lines)));
               qualifies = (\<lambda>j. candidate j \<noteq> [] \<and> take j lines \<noteq> []
                                \<and> looksComplete (last (take j lines)))
           in (\<forall>c. (repairPartialToon text = Some c) =
                     (\<exists>j\<le>length lines. qualifies j \<and> c = candidate j
                        \<and> (\<forall>k. j < k \<and> k \<le> length lines \<longrightarrow> \<not> qualifies k)))
            \<and> ((repairPartialToon text = None) = (\<forall>j\<le>length lines. \<not> qualifies j)))"
proof -
  have it_Some: "(repair_iteration lines j = Some c) =
      (trimEnd (join_lines (take j lines)) \<noteq> [] \<and> take j lines \<noteq> []
        \<and> looksComplete (last (take j lines)) \<and> c = trimEnd (join_lines (take j lines)))"
    for lines j c
    by (auto simp: repair_iteration_def Let_def)
  have it_None: "(repair_iteration lines j = None) =
      (\<not> (trimEnd (join_lines (take j lines)) \<noteq> [] \<and> take j lines \<noteq> []
        \<and> looksComplete (last (take j lines))))"
    for lines j
    by (auto simp: repair_iteration_def Let_def)
  have 1: "parsePartialToon decode (Some text) =
           (case repairPartialToon text of
              None \<Rightarrow> \<lparr>outcome_value = None, outcome_state = FailedParse\<rparr>
            | Some c \<Rightarrow>
                if c = text then \<lparr>outcome_value = None, outcome_state = FailedParse\<rparr>
                else (case safeParseToon decode c None of
                        Success v raw \<Rightarrow> \<lparr>outcome_value = Some v, outcome_state = RepairedParse\<rparr>
                      | Failure e' \<Rightarrow> \<lparr>outcome_value = None, outcome_state = FailedParse\<rparr>))"
    using fails by (simp add: parsePartialToon_def split: option.splits parse_result.splits)
  have 2: "(repairPartialToon text = Some c) =
             (\<exists>j\<le>length (split_lines text).
                 (trimEnd (join_lines (take j (split_lines text))) \<noteq> []
                   \<and> take j (split_lines text) \<noteq> []
                   \<and> looksComplete (last (take j (split_lines text))))
               \<and> c = trimEnd (join_lines (take j (split_lines text)))
               \<and> (\<forall>k. j < k \<and> k \<le> length (split_lines text) \<longrightarrow>
                     \<not> (trimEnd (join_lines (take k (split_lines text))) \<noteq> []
                         \<and> take k (split_lines text) \<noteq> []
                         \<and> looksComplete (last (take k (split_lines text))))))" for c
    unfolding repairPartialToon_loop repair_loop_Some_iff it_Some it_None
    by (simp only: conj_assoc)
  have 3: "(repairPartialToon text = None) =
             (\<forall>j\<le>length (split_lines text).
                 \<not> (trimEnd (join_lines (take j (split_lines text))) \<noteq> []
                     \<and> take j (split_lines text) \<noteq> []
                     \<and> looksComplete (last (take j (split_lines text)))))"
    unfolding repairPartialToon_loop repair_loop_None_iff it_None ..
  show ?thesis unfolding Let_def
  proof (intro conjI allI)
    show "parsePartialToon decode (Some text) =
           (case repairPartialToon text of
              None \<Rightarrow> \<lparr>outcome_value = None, outcome_state = FailedParse\<rparr>
            | Some c \<Rightarrow>
                if c = text then \<lparr>outcome_value = None, outcome_state = FailedParse\<rparr>
                else (case safeParseToon decode c None of
                        Success v raw \<Rightarrow> \<lparr>outcome_value = Some v, outcome_state = RepairedParse\<rparr>
                      | Failure e' \<Rightarrow> \<lparr>outcome_value = None, outcome_state = FailedParse\<rparr>))"
      by (rule 1)
  qed (rule 2, rule 3)
qed

theorem parsePartialToon_single_candidate_witness:
  "parsePartialToon sample_decode (Some (''a: 1'' @ CHR 0x0A # ''b: '' @ [CHR 0x22, CHR ''z'']))
     = \<lparr>outcome_value = Some (JObject [(''a'', JNumber 1)]), outcome_state = RepairedParse\<rparr>
   \<and> repairPartialToon (''a: 1'' @ CHR 0x0A # ''b: '' @ [CHR 0x22, CHR ''z'']) = Some ''a: 1''
   \<and> repairPartialToon [CHR 0x22, CHR ''x''] = None
   \<and> parsePartialToon sample_decode (Some [CHR 0x22, CHR ''x''])
     = \<lparr>outcome_value = None, outcome_state = FailedParse\<rparr>"
proof -
  let ?t = "''a: 1'' @ CHR 0x0A # ''b: '' @ [CHR 0x22, CHR ''z'']"
  let ?u = "[CHR 0x22, CHR ''x'']"
  have f: "safeParseToon sample_decode ?t None = Failure (JSONParseError ?t (SyntaxError ''Invalid TOON''))"
    by code_simp
  have r: "repairPartialToon ?t = Some ''a: 1''" by code_simp
  have s: "safeParseToon sample_decode ''a: 1'' None
     = Success (JObject [(''a'', JNumber 1)]) (JObject [(''a'', JNumber 1)])" by code_simp
  from parsePartialToon_single_candidate [OF f] have "parsePartialToon sample_decode (Some ?t) =
           (case repairPartialToon ?t of
              None \<Rightarrow> \<lparr>outcome_value = None, outcome_state = FailedParse\<rparr>
            | Some c \<Rightarrow>
                if c = ?t then \<lparr>outcome_value = None, outcome_state = FailedParse\<rparr>
                else (case safeParseToon sample_decode c None of
                        Success v raw \<Rightarrow> \<lparr>outcome_value = Some v, outcome_state = RepairedParse\<rparr>
                      | Failure e' \<Rightarrow> \<lparr>outcome_value = None, outcome_state = FailedParse\<rparr>))"
    by (rule conjunct1)
  with r s have 1: "parsePartialToon sample_decode (Some ?t)
     = \<lparr>outcome_value = Some (JObject [(''a'', JNumber 1)]), outcome_state = RepairedParse\<rparr>"
    by simp
  have g: "safeParseToon sample_decode ?u None = Failure (JSONParseError ?u (SyntaxError ''Invalid TOON''))"
    by code_simp
  have n: "repairPartialToon ?u = None" by code_simp
  from parsePartialToon_single_candidate [OF g] have "parsePartialToon sample_decode (Some ?u) =
           (case repairPartialToon ?u of
              None \<Rightarrow> \<lparr>outcome_value = None, outcome_state = FailedParse\<rparr>
            | Some c \<Rightarrow>
                if c = ?u then \<lparr>outcome_value = None, outcome_state = FailedParse\<rparr>
                else (case safeParseToon sample_decode c None of
                        Success v raw \<Rightarrow> \<lparr>outcome_value = Some v, outcome_state = RepairedParse\<rparr>
                      | Failure e' \<Rightarrow> \<lparr>outcome_value = None, outcome_state = FailedParse\<rparr>))"
    by (rule conjunct1)
  with n have 2: "parsePartialToon sample_decode (Some ?u)
     = \<lparr>outcome_value = None, outcome_state = FailedParse\<rparr>"
    by simp
  from 1 r n 2 show ?thesis by simp
qed

section \<open>Properties of the secure decoder\<close>

lemma subvalues_unfold:
  "set (subvalues v) = insert v (\<Union>c \<in> set (ownValues v). set (subvalues c))"
  by (cases v) auto

lemma subvalues_self: "v \<in> set (subvalues v)"
  by (cases v) simp_all

lemma scan_node_cases:
  fixes node :: jsonvalue
  shows "(scan_node node :: ('r, 'u, 'f) err + jsonvalue list) =
     (if forbidden_node node then Inl (SyntaxError forbiddenMessage)
      else if nullConstructor node then Inl (TypeError nullReceiverMessage)
      else Inr (filter isObjectLike (ownValues node)))"
proof (cases node)
  case (JObject props)
  show ?thesis
  proof (cases "map_of props ''constructor''")
    case None
    with JObject show ?thesis
      by (auto simp: scan_node_def forbidden_node_def ownsProto_def constructorOwnsPrototype_def
          nullConstructor_def split: bool.splits)
  next
    case (Some c)
    with JObject show ?thesis
      by (cases c)
        (auto simp: scan_node_def forbidden_node_def ownsProto_def constructorOwnsPrototype_def
          nullConstructor_def split: bool.splits)
  qed
qed (simp_all add: scan_node_def forbidden_node_def ownsProto_def constructorOwnsPrototype_def
          nullConstructor_def)

lemma scalar_clean: "\<not> isObjectLike v \<Longrightarrow> clean v"
  by (cases v) (simp_all add: clean_def forbidden_node_def ownsProto_def
      constructorOwnsPrototype_def nullConstructor_def)

lemma scalar_subvalues: "\<not> isObjectLike v \<Longrightarrow> subvalues v = [v]"
  by (cases v) simp_all

lemma scan_level_Inr_iff:
  fixes nodes :: "jsonvalue list"
  shows "((scan_level nodes acc :: ('r, 'u, 'f) err + jsonvalue list) = Inr next') =
           ((\<forall>n \<in> set nodes. clean n) \<and> next' = acc @ concat (map pushedBy nodes))"
proof (induction nodes arbitrary: acc)
  case Nil
  show ?case by auto
next
  case (Cons n ns)
  show ?case
    by (simp add: scan_node_cases [of n] Cons.IH clean_def pushedBy_def)
qed

lemma scan_level_Inr:
  fixes nodes :: "jsonvalue list"
  assumes "(scan_level nodes acc :: ('r, 'u, 'f) err + jsonvalue list) = Inr next'"
  shows "\<forall>n \<in> set nodes. clean n" and "next' = acc @ concat (map pushedBy nodes)"
  using assms unfolding scan_level_Inr_iff by simp_all

lemma scan_level_Inl:
  fixes nodes :: "jsonvalue list"
  assumes "(scan_level nodes acc :: ('r, 'u, 'f) err + jsonvalue list) = Inl e"
  shows "\<exists>n \<in> set nodes. (scan_node n :: ('r, 'u, 'f) err + jsonvalue list) = Inl e"
  using assms
  by (induction nodes arbitrary: acc) (auto split: sum.splits)

lemma subvalues_clean:
  "(\<forall>n \<in> set (subvalues v). clean n) =
     (clean v \<and> (\<forall>c \<in> set (pushedBy v). \<forall>n \<in> set (subvalues c). clean n))"
proof -
  have sc: "\<forall>n \<in> set (subvalues c). clean n" if "\<not> isObjectLike c" for c
    using that by (simp add: scalar_clean scalar_subvalues)
  have "(\<forall>c \<in> set (ownValues v). \<forall>n \<in> set (subvalues c). clean n)
          = (\<forall>c \<in> set (pushedBy v). \<forall>n \<in> set (subvalues c). clean n)"
  proof
    assume "\<forall>c \<in> set (ownValues v). \<forall>n \<in> set (subvalues c). clean n"
    then show "\<forall>c \<in> set (pushedBy v). \<forall>n \<in> set (subvalues c). clean n"
      by (auto simp: pushedBy_def)
  next
    assume a: "\<forall>c \<in> set (pushedBy v). \<forall>n \<in> set (subvalues c). clean n"
    show "\<forall>c \<in> set (ownValues v). \<forall>n \<in> set (subvalues c). clean n"
    proof
      fix c assume "c \<in> set (ownValues v)"
      with a sc [of c] show "\<forall>n \<in> set (subvalues c). clean n"
        by (cases "isObjectLike c") (simp_all add: pushedBy_def)
    qed
  qed
  then show ?thesis by (simp add: subvalues_unfold [of v])
qed

lemma reach_step:
  "(\<forall>n \<in> reach level. clean n) =
     ((\<forall>n \<in> set level. clean n) \<and> (\<forall>n \<in> reach (concat (map pushedBy level)). clean n))"
proof -
  have "(\<forall>n \<in> reach level. clean n) = (\<forall>v \<in> set level. \<forall>n \<in> set (subvalues v). clean n)"
    by (auto simp: reach_def)
  also have "\<dots> = (\<forall>v \<in> set level.
       clean v \<and> (\<forall>c \<in> set (pushedBy v). \<forall>n \<in> set (subvalues c). clean n))"
    using subvalues_clean by blast
  also have "\<dots> = ((\<forall>n \<in> set level. clean n)
       \<and> (\<forall>n \<in> reach (concat (map pushedBy level)). clean n))"
    by (auto simp: reach_def)
  finally show ?thesis .
qed

lemma scan_level_decreases:
  fixes level :: "jsonvalue list"
  assumes "(scan_level level [] :: ('r, 'u, 'f) err + jsonvalue list) = Inr next'"
    and "level \<noteq> []"
  shows "weight next' < weight level"
  using scan_level_weight [OF assms(1)] assms(2) by (cases level) (simp_all add: weight_def)

lemma filter_loop_Inr:
  fixes level :: "jsonvalue list"
  shows "((filter_loop level :: ('r, 'u, 'f) err + unit) = Inr ()) = (\<forall>n \<in> reach level. clean n)"
proof (induction "weight level" arbitrary: level rule: less_induct)
  case less
  show ?case
  proof (cases "level = []")
    case True
    then show ?thesis by (simp add: filter_loop.simps reach_def)
  next
    case False
    show ?thesis
    proof (cases "scan_level level [] :: ('r, 'u, 'f) err + jsonvalue list")
      case (Inl e)
      from scan_level_Inl [OF Inl] obtain n where n: "n \<in> set level"
        "(scan_node n :: ('r, 'u, 'f) err + jsonvalue list) = Inl e" by blast
      from n(2) have "\<not> clean n"
        by (auto simp: scan_node_cases [of n] clean_def split: if_splits)
      with n(1) have "\<not> (\<forall>n \<in> set level. clean n)" by blast
      with False Inl show ?thesis
        by (simp add: filter_loop.simps [of level] reach_step [of level])
    next
      case (Inr next')
      from scan_level_Inr [OF Inr]
      have c: "\<forall>n \<in> set level. clean n" and nx: "next' = concat (map pushedBy level)"
        by simp_all
      from less [OF scan_level_decreases [OF Inr False]]
      have "((filter_loop next' :: ('r, 'u, 'f) err + unit) = Inr ()) = (\<forall>n \<in> reach next'. clean n)" .
      with False Inr c nx show ?thesis
        by (simp add: filter_loop.simps [of level] reach_step [of level])
    qed
  qed
qed

lemma filter_loop_Inl:
  fixes level :: "jsonvalue list"
  assumes "(filter_loop level :: ('r, 'u, 'f) err + unit) = Inl e"
  shows "\<exists>n \<in> reach level. (scan_node n :: ('r, 'u, 'f) err + jsonvalue list) = Inl e"
  using assms
proof (induction "weight level" arbitrary: level rule: less_induct)
  case less
  show ?case
  proof (cases "level = []")
    case True
    with less.prems show ?thesis by (simp add: filter_loop.simps)
  next
    case False
    show ?thesis
    proof (cases "scan_level level [] :: ('r, 'u, 'f) err + jsonvalue list")
      case (Inl e')
      with False less.prems have "e' = e" by (simp add: filter_loop.simps [of level])
      with scan_level_Inl [OF Inl] obtain n where "n \<in> set level"
        "(scan_node n :: ('r, 'u, 'f) err + jsonvalue list) = Inl e" by blast
      moreover have "set level \<subseteq> reach level"
        using subvalues_self by (auto simp: reach_def)
      ultimately show ?thesis by blast
    next
      case (Inr next')
      with False less.prems have "(filter_loop next' :: ('r, 'u, 'f) err + unit) = Inl e"
        by (simp add: filter_loop.simps [of level])
      from less.hyps [OF scan_level_decreases [OF Inr False] this] obtain n
        where n: "n \<in> reach next'"
          "(scan_node n :: ('r, 'u, 'f) err + jsonvalue list) = Inl e" by blast
      from scan_level_Inr(2) [OF Inr] have "next' = concat (map pushedBy level)"
        by simp
      with n(1) obtain v c where "v \<in> set level" "c \<in> set (ownValues v)" "n \<in> set (subvalues c)"
        by (auto simp: reach_def pushedBy_def)
      then have "n \<in> reach level"
        unfolding reach_def using subvalues_unfold [of v] by blast
      with n(2) show ?thesis by blast
    qed
  qed
qed

lemma filter_obj_Inr:
  fixes v :: jsonvalue
  shows "((filter_obj v :: ('r, 'u, 'f) err + jsonvalue) = Inr r) =
           (r = v \<and> (\<forall>n \<in> set (subvalues v). clean n))"
proof -
  have "((filter_loop [v] :: ('r, 'u, 'f) err + unit) = Inr ()) = (\<forall>n \<in> set (subvalues v). clean n)"
    using filter_loop_Inr [of "[v]"] by (simp add: reach_def)
  then show ?thesis
    by (cases "filter_loop [v] :: ('r, 'u, 'f) err + unit") (auto simp: filter_obj_def)
qed

lemma filter_obj_Inl:
  fixes v :: jsonvalue
  assumes "(filter_obj v :: ('r, 'u, 'f) err + jsonvalue) = Inl e"
  shows "(e = SyntaxError forbiddenMessage \<and> (\<exists>n \<in> set (subvalues v). forbidden_node n))
       \<or> (e = TypeError nullReceiverMessage \<and> (\<exists>n \<in> set (subvalues v). nullConstructor n))"
proof -
  from assms have "(filter_loop [v] :: ('r, 'u, 'f) err + unit) = Inl e"
    by (simp add: filter_obj_def split: sum.splits)
  from filter_loop_Inl [OF this] obtain n where n: "n \<in> set (subvalues v)"
    "(scan_node n :: ('r, 'u, 'f) err + jsonvalue list) = Inl e"
    by (auto simp: reach_def)
  from n(2) have "(e = SyntaxError forbiddenMessage \<and> forbidden_node n)
                \<or> (e = TypeError nullReceiverMessage \<and> nullConstructor n)"
    by (auto simp: scan_node_cases [of n] split: if_splits)
  with n(1) show ?thesis by blast
qed

text \<open>
  On a tree in which no node has a \<open>null\<close> constructor the scan does what its description
  says: it fails with the forbidden-property error exactly when a reachable node is
  forbidden, and returns the value otherwise.
\<close>

lemma filter_obj_without_null_constructor:
  fixes v :: jsonvalue
  assumes "\<forall>n \<in> set (subvalues v). \<not> nullConstructor n"
  shows "(filter_obj v :: ('r, 'u, 'f) err + jsonvalue) =
           (if \<exists>n \<in> set (subvalues v). forbidden_node n then Inl (SyntaxError forbiddenMessage)
            else Inr v)"
proof (cases "filter_obj v :: ('r, 'u, 'f) err + jsonvalue")
  case (Inl e)
  from filter_obj_Inl [OF Inl] assms Inl show ?thesis by auto
next
  case (Inr r)
  then have "r = v \<and> (\<forall>n \<in> set (subvalues v). clean n)" by (simp add: filter_obj_Inr)
  with Inr show ?thesis by (auto simp: clean_def)
qed

text \<open>
  Claim C4 says that the scan fails with the forbidden-property \<open>SyntaxError\<close> exactly when
  a reachable node is forbidden, and returns the value otherwise. The code misses the
  case of a \<open>constructor\<close> property that is \<open>null\<close>: \<open>hasOwnProperty\<close> is called with \<open>null\<close>
  as receiver and throws a \<open>TypeError\<close>. The text \<open>"constructor": null\<close> matches the second
  pattern, its tree holds no forbidden node, and the scan neither returns the tree nor
  raises the \<open>SyntaxError\<close>; the wrapper reports a parse failure. The same \<open>TypeError\<close>
  also comes out when a forbidden node follows such a node on the same level.
\<close>

theorem filter_obj_null_constructor:
  "sample_decode null_constructor_text = Inr (JObject [(''constructor'', JNull)])
   \<and> suspectConstructorRx null_constructor_text
   \<and> list_all (\<lambda>n. \<not> forbidden_node n) (subvalues (JObject [(''constructor'', JNull)]))
   \<and> (filter_obj (JObject [(''constructor'', JNull)]) :: (unit, unit, unit) err + jsonvalue)
       = Inl (TypeError nullReceiverMessage)
   \<and> secureToonParse sample_decode null_constructor_text = Inl (TypeError nullReceiverMessage)
   \<and> safeParseToon sample_decode null_constructor_text None
       = Failure (JSONParseError null_constructor_text (TypeError nullReceiverMessage))
   \<and> list_ex forbidden_node
        (subvalues (JArray [JObject [(''constructor'', JNull)], JObject [(''__proto__'', JNumber 1)]]))
   \<and> (filter_obj (JArray [JObject [(''constructor'', JNull)], JObject [(''__proto__'', JNumber 1)]])
         :: (unit, unit, unit) err + jsonvalue)
       = Inl (TypeError nullReceiverMessage)"
  by code_simp

text \<open>
  Claim C3. Let the grammar decoder succeed on a text. If the decoded root is \<open>null\<close> or
  not an object or array, secure decode returns it as it is. If the text matches neither
  pattern, secure decode returns the decoded value whatever the tree holds: the result
  does not depend on the scan, so no forbidden-property error can come out.
\<close>

theorem secureToonParse_fast_path:
  assumes "decode text = Inr v"
  shows "(\<not> isObjectLike v \<longrightarrow> secureToonParse decode text = Inr v)
       \<and> (\<not> suspectProtoRx text \<and> \<not> suspectConstructorRx text \<longrightarrow>
            secureToonParse decode text = Inr v)"
  using assms by (simp add: secureToonParse_def)

text \<open>
  The instance: a decoded tree that owns \<open>__proto__\<close>, which the scan would reject, comes
  back unchanged because its text does not hold the quoted key.
\<close>

theorem secureToonParse_fast_path_witness:
  "secureToonParse sample_decode ''__proto__: 1'' = Inr (JObject [(''__proto__'', JNumber 1)])
   \<and> (filter_obj (JObject [(''__proto__'', JNumber 1)]) :: (unit, unit, unit) err + jsonvalue)
       = Inl (SyntaxError forbiddenMessage)
   \<and> secureToonParse sample_decode ''hello'' = Inr (JString ''hello'')"
proof -
  have d: "sample_decode ''__proto__: 1'' = Inr (JObject [(''__proto__'', JNumber 1)])"
    by code_simp
  have n: "\<not> suspectProtoRx ''__proto__: 1'' \<and> \<not> suspectConstructorRx ''__proto__: 1''"
    by code_simp
  have f: "(filter_obj (JObject [(''__proto__'', JNumber 1)]) :: (unit, unit, unit) err + jsonvalue)
       = Inl (SyntaxError forbiddenMessage)"
    by code_simp
  have d': "sample_decode ''hello'' = Inr (JString ''hello'')" by code_simp
  have s: "\<not> isObjectLike (JString ''hello'')" by simp
  from secureToonParse_fast_path [of sample_decode "''__proto__: 1''", OF d]
    secureToonParse_fast_path [of sample_decode "''hello''", OF d'] n f s
  show ?thesis by simp
qed

section \<open>Properties of the result wrapper\<close>

text \<open>
  Claim C9. In the throwing variant, an error of the decoder passes through secure
  decode; every error that secure decode or the validation raises leaves \<open>parseToon\<close> as
  a \<open>JSONParseError\<close> with the text and the error as cause, unless it already is a
  \<open>JSONParseError\<close> or a \<open>TypeValidationError\<close>, which leaves unchanged. Every error of
  \<open>parseToon\<close> arises in one of these two ways.
\<close>

theorem parseToon_error_normalised:
  "(decode text = Inl e \<longrightarrow> secureToonParse decode text = Inl e)
   \<and> (secureToonParse decode text = Inl e \<longrightarrow>
        parseToon decode text schema =
          Inl (if isJSONParseError e \<or> isTypeValidationError e then e else JSONParseError text e))
   \<and> (secureToonParse decode text = Inr v \<and> schema = Some validateTypes \<and> validateTypes v = Inl e \<longrightarrow>
        parseToon decode text schema =
          Inl (if isJSONParseError e \<or> isTypeValidationError e then e else JSONParseError text e))
   \<and> (parseToon decode text schema = Inl e' \<longrightarrow>
        (\<exists>c. (secureToonParse decode text = Inl c
               \<or> (\<exists>w validate. secureToonParse decode text = Inr w \<and> schema = Some validate
                      \<and> validate w = Inl c))
             \<and> e' = (if isJSONParseError c \<or> isTypeValidationError c then c
                      else JSONParseError text c)))"
  by (auto simp: parseToon_def parseToon_try_def secureToonParse_def
      split: sum.splits option.splits if_splits)

theorem parseToon_error_normalised_witness:
  "parseToon sample_decode ''zzz'' None = Inl (JSONParseError ''zzz'' (SyntaxError ''Invalid TOON''))
   \<and> parseToon sample_decode ''a: 1''
        (Some (\<lambda>v. Inl (TypeValidationError v (OtherError ''expected a string''))))
       = Inl (TypeValidationError (JObject [(''a'', JNumber 1)]) (OtherError ''expected a string''))"
proof -
  have d: "secureToonParse sample_decode ''zzz'' = Inl (SyntaxError ''Invalid TOON'')"
    by code_simp
  have s: "secureToonParse sample_decode ''a: 1'' = Inr (JObject [(''a'', JNumber 1)])"
    by code_simp
  from parseToon_error_normalised
         [of sample_decode "''zzz''" "SyntaxError ''Invalid TOON''" None,
          THEN conjunct2, THEN conjunct1, THEN mp, OF d]
  have 1: "parseToon sample_decode ''zzz'' None
             = Inl (JSONParseError ''zzz'' (SyntaxError ''Invalid TOON''))"
    by simp
  let ?validate = "\<lambda>v. Inl (TypeValidationError v (OtherError ''expected a string''))
                     :: (unit, unit, unit) err + jsonvalue"
  let ?e = "TypeValidationError (JObject [(''a'', JNumber 1)]) (OtherError ''expected a string'')
              :: (unit, unit, unit) err"
  have v: "secureToonParse sample_decode ''a: 1'' = Inr (JObject [(''a'', JNumber 1)])
          \<and> Some ?validate = Some ?validate \<and> ?validate (JObject [(''a'', JNumber 1)]) = Inl ?e"
    using s by simp
  from parseToon_error_normalised
         [of sample_decode "''a: 1''" ?e "Some ?validate" "JObject [(''a'', JNumber 1)]" ?validate,
          THEN conjunct2, THEN conjunct2, THEN conjunct1, THEN mp, OF v]
  have 2: "parseToon sample_decode ''a: 1'' (Some ?validate) = Inl ?e"
    by simp
  from 1 2 show ?thesis by simp
qed

section \<open>Properties of the orchestrator\<close>

lemma parseAndValidateObjectResult_Inl:
  assumes "parseAndValidateObjectResult decode safeParseJSON validateFinalResult t format ctx = Inl e"
  shows "\<exists>m c. e = NoObjectGeneratedError m c t (response ctx) (usage ctx) (finishReason ctx)
           \<and> ((if format = ToonFormat then safeParseToon decode t None else safeParseJSON t) = Failure c
                \<and> m = couldNotParse
              \<or> (\<exists>v raw. (if format = ToonFormat then safeParseToon decode t None else safeParseJSON t)
                            = Success v raw
                   \<and> validateFinalResult v t (response ctx) (usage ctx) = ValidationFailure c
                   \<and> m = didNotMatch))"
  using assms
  by (auto simp: parseAndValidateObjectResult_def Let_def
      split: parse_result.splits validation_result.splits if_splits)

text \<open>
  Claim C2. Every call of \<open>parseAndValidateObjectResultWithRepair\<close> invokes the repair
  function at most once, and only on the original text. When that invocation returns
  \<open>null\<close>, the outcome is the error of the first attempt itself, whose cause is the cause
  that was handed to the repair function.
\<close>

theorem repair_invoked_at_most_once:
  assumes run: "parseAndValidateObjectResultWithRepair decode safeParseJSON validateFinalResult
                  result repairText format ctx = (calls, outcome)"
  shows "length calls \<le> 1
     \<and> (\<forall>t c. (t, c) \<in> set calls \<longrightarrow>
          t = result
          \<and> (\<exists>repair. repairText = Some repair
                \<and> (repair t c = None \<longrightarrow>
                      outcome = parseAndValidateObjectResult decode safeParseJSON
                                  validateFinalResult result format ctx
                    \<and> (\<exists>m r u f. outcome = Inl (NoObjectGeneratedError m c result r u f)))))"
proof (cases "parseAndValidateObjectResult decode safeParseJSON validateFinalResult
                result format ctx")
  case (Inr x)
  with run show ?thesis by (simp add: parseAndValidateObjectResultWithRepair_def)
next
  case (Inl error)
  from parseAndValidateObjectResult_Inl [OF Inl] obtain m c
    where e: "error = NoObjectGeneratedError m c result (response ctx) (usage ctx) (finishReason ctx)"
    by blast
  from run show ?thesis unfolding parseAndValidateObjectResultWithRepair_def Inl e
    by (auto split: option.splits if_splits)
qed

theorem repair_invoked_at_most_once_witness:
  "parseAndValidateObjectResultWithRepair sample_decode sample_json sample_validate
       ''zzz'' (Some decline_repair) ToonFormat sample_context
     = ([(''zzz'', JSONParseError ''zzz'' (SyntaxError ''Invalid TOON''))],
        Inl (NoObjectGeneratedError couldNotParse
               (JSONParseError ''zzz'' (SyntaxError ''Invalid TOON'')) ''zzz'' () () ()))
   \<and> parseAndValidateObjectResult sample_decode sample_json sample_validate
       ''zzz'' ToonFormat sample_context
     = Inl (NoObjectGeneratedError couldNotParse
               (JSONParseError ''zzz'' (SyntaxError ''Invalid TOON'')) ''zzz'' () () ())"
proof -
  let ?c = "JSONParseError ''zzz'' (SyntaxError ''Invalid TOON'') :: (unit, unit, unit) err"
  let ?E = "NoObjectGeneratedError couldNotParse ?c ''zzz'' () () ()"
  have run: "parseAndValidateObjectResultWithRepair sample_decode sample_json sample_validate
       ''zzz'' (Some decline_repair) ToonFormat sample_context
     = ([(''zzz'', ?c)], (Inl ?E :: (unit, unit, unit) err + jsonvalue))"
    by code_simp
  have d: "decline_repair ''zzz'' ?c = None" by (simp add: decline_repair_def)
  from repair_invoked_at_most_once [OF run, THEN conjunct2]
  have "\<exists>repair. Some decline_repair = Some repair
                \<and> (repair ''zzz'' ?c = None \<longrightarrow>
                      (Inl ?E :: (unit, unit, unit) err + jsonvalue)
                        = parseAndValidateObjectResult sample_decode sample_json
                                  sample_validate ''zzz'' ToonFormat sample_context
                    \<and> (\<exists>m r u f. (Inl ?E :: (unit, unit, unit) err + jsonvalue)
                           = Inl (NoObjectGeneratedError m ?c ''zzz'' r u f)))"
    by simp
  with d have "(Inl ?E :: (unit, unit, unit) err + jsonvalue)
                 = parseAndValidateObjectResult sample_decode sample_json
                                  sample_validate ''zzz'' ToonFormat sample_context"
    by simp
  with run show ?thesis by simp
qed

text \<open>
  Claim C6. The repair function is invoked only if it was supplied and the first attempt
  failed with a \<open>NoObjectGeneratedError\<close> whose cause is a \<open>JSONParseError\<close> or a
  \<open>TypeValidationError\<close>. With no repair function, or with any other error, nothing is
  invoked and the error of the first attempt is raised unchanged. When the repair function
  returns a text, the outcome is that of the second attempt on it: if it fails, the error
  is a \<open>NoObjectGeneratedError\<close> with the repaired text and the cause of that attempt's
  own parse or validation failure, and the repair function is not invoked again.
\<close>

theorem repair_gate_and_second_attempt:
  assumes run: "parseAndValidateObjectResultWithRepair decode safeParseJSON validateFinalResult
                  result repairText format ctx = (calls, outcome)"
  shows "(calls \<noteq> [] \<longrightarrow>
            (\<exists>repair m c t r u f. repairText = Some repair
               \<and> parseAndValidateObjectResult decode safeParseJSON validateFinalResult
                    result format ctx = Inl (NoObjectGeneratedError m c t r u f)
               \<and> (isJSONParseError c \<or> isTypeValidationError c)
               \<and> calls = [(result, c)]))
     \<and> (\<forall>error. parseAndValidateObjectResult decode safeParseJSON validateFinalResult
                    result format ctx = Inl error
              \<and> (repairText = None
                  \<or> \<not> (\<exists>m c t r u f. error = NoObjectGeneratedError m c t r u f
                          \<and> (isJSONParseError c \<or> isTypeValidationError c)))
            \<longrightarrow> calls = [] \<and> outcome = Inl error)
     \<and> (\<forall>repair c repaired. repairText = Some repair \<and> calls = [(result, c)]
              \<and> repair result c = Some repaired
            \<longrightarrow> outcome = parseAndValidateObjectResult decode safeParseJSON validateFinalResult
                            repaired format ctx
              \<and> (\<forall>e2. outcome = Inl e2 \<longrightarrow>
                    (\<exists>m c2. e2 = NoObjectGeneratedError m c2 repaired
                                   (response ctx) (usage ctx) (finishReason ctx)
                       \<and> ((if format = ToonFormat then safeParseToon decode repaired None
                            else safeParseJSON repaired) = Failure c2 \<and> m = couldNotParse
                          \<or> (\<exists>v raw. (if format = ToonFormat then safeParseToon decode repaired None
                                        else safeParseJSON repaired) = Success v raw
                                \<and> validateFinalResult v repaired (response ctx) (usage ctx)
                                    = ValidationFailure c2 \<and> m = didNotMatch)))))"
proof (intro conjI allI impI)
  assume "calls \<noteq> []"
  with run show "\<exists>repair m c t r u f. repairText = Some repair
               \<and> parseAndValidateObjectResult decode safeParseJSON validateFinalResult
                    result format ctx = Inl (NoObjectGeneratedError m c t r u f)
               \<and> (isJSONParseError c \<or> isTypeValidationError c)
               \<and> calls = [(result, c)]"
    by (auto simp: parseAndValidateObjectResultWithRepair_def
        split: sum.splits option.splits err.splits if_splits)
next
  fix error
  assume "parseAndValidateObjectResult decode safeParseJSON validateFinalResult
                    result format ctx = Inl error
              \<and> (repairText = None
                  \<or> \<not> (\<exists>m c t r u f. error = NoObjectGeneratedError m c t r u f
                          \<and> (isJSONParseError c \<or> isTypeValidationError c)))"
  with run show "calls = []" and "outcome = Inl error"
    by (auto simp: parseAndValidateObjectResultWithRepair_def
        split: sum.splits option.splits err.splits if_splits)
next
  fix repair c repaired
  assume a: "repairText = Some repair \<and> calls = [(result, c)] \<and> repair result c = Some repaired"
  with run show o: "outcome = parseAndValidateObjectResult decode safeParseJSON validateFinalResult
                            repaired format ctx"
    by (auto simp: parseAndValidateObjectResultWithRepair_def
        split: sum.splits option.splits err.splits if_splits)
  fix e2 assume "outcome = Inl e2"
  with o have "parseAndValidateObjectResult decode safeParseJSON validateFinalResult
                            repaired format ctx = Inl e2" by simp
  from parseAndValidateObjectResult_Inl [OF this]
  show "\<exists>m c2. e2 = NoObjectGeneratedError m c2 repaired
                                   (response ctx) (usage ctx) (finishReason ctx)
                       \<and> ((if format = ToonFormat then safeParseToon decode repaired None
                            else safeParseJSON repaired) = Failure c2 \<and> m = couldNotParse
                          \<or> (\<exists>v raw. (if format = ToonFormat then safeParseToon decode repaired None
                                        else safeParseJSON repaired) = Success v raw
                                \<and> validateFinalResult v repaired (response ctx) (usage ctx)
                                    = ValidationFailure c2 \<and> m = didNotMatch))" .
qed

theorem repair_gate_and_second_attempt_witness:
  "parseAndValidateObjectResultWithRepair sample_decode sample_json sample_validate
       ''zzz'' (Some hello_repair) ToonFormat sample_context
     = ([(''zzz'', JSONParseError ''zzz'' (SyntaxError ''Invalid TOON''))],
        Inl (NoObjectGeneratedError didNotMatch (OtherError ''validator failed'') ''hello'' () () ()))
   \<and> parseAndValidateObjectResult sample_decode sample_json sample_validate
       ''hello'' ToonFormat sample_context
     = Inl (NoObjectGeneratedError didNotMatch (OtherError ''validator failed'') ''hello'' () () ())
   \<and> parseAndValidateObjectResultWithRepair sample_decode sample_json sample_validate
       ''hello'' (Some hello_repair) ToonFormat sample_context
     = ([], Inl (NoObjectGeneratedError didNotMatch (OtherError ''validator failed'') ''hello'' () () ()))"
proof -
  let ?c = "JSONParseError ''zzz'' (SyntaxError ''Invalid TOON'') :: (unit, unit, unit) err"
  let ?E = "NoObjectGeneratedError didNotMatch (OtherError ''validator failed'') ''hello'' () () ()
              :: (unit, unit, unit) err"
  have run: "parseAndValidateObjectResultWithRepair sample_decode sample_json sample_validate
       ''zzz'' (Some hello_repair) ToonFormat sample_context
     = ([(''zzz'', ?c)], (Inl ?E :: (unit, unit, unit) err + jsonvalue))"
    by code_simp
  have first: "parseAndValidateObjectResult sample_decode sample_json sample_validate
       ''hello'' ToonFormat sample_context = (Inl ?E :: (unit, unit, unit) err + jsonvalue)"
    by code_simp
  have h: "Some hello_repair = Some hello_repair \<and> [(''zzz'', ?c)] = [(''zzz'', ?c)]
            \<and> hello_repair ''zzz'' ?c = Some ''hello''"
    by (simp add: hello_repair_def)
  from repair_gate_and_second_attempt [OF run, THEN conjunct2, THEN conjunct2, THEN spec, THEN spec, THEN spec, THEN mp, OF h,
           THEN conjunct1]
  have second: "(Inl ?E :: (unit, unit, unit) err + jsonvalue)
          = parseAndValidateObjectResult sample_decode sample_json sample_validate
              ''hello'' ToonFormat sample_context" .
  have run2: "parseAndValidateObjectResultWithRepair sample_decode sample_json sample_validate
       ''hello'' (Some hello_repair) ToonFormat sample_context
     = ([], (Inl ?E :: (unit, unit, unit) err + jsonvalue))"
  proof -
    obtain calls outcome where r: "parseAndValidateObjectResultWithRepair sample_decode sample_json
        sample_validate ''hello'' (Some hello_repair) ToonFormat sample_context
          = (calls, (outcome :: (unit, unit, unit) err + jsonvalue))"
      by (cases "parseAndValidateObjectResultWithRepair sample_decode sample_json
        sample_validate ''hello'' (Some hello_repair) ToonFormat sample_context") auto
    have g: "parseAndValidateObjectResult sample_decode sample_json sample_validate
                ''hello'' ToonFormat sample_context = Inl ?E
              \<and> (Some hello_repair = None
                  \<or> \<not> (\<exists>m c t r u f. ?E = NoObjectGeneratedError m c t r u f
                          \<and> (isJSONParseError c \<or> isTypeValidationError c)))"
      using first by simp
    from repair_gate_and_second_attempt [OF r, THEN conjunct2, THEN conjunct1, THEN spec, THEN mp, OF g] r
    show ?thesis by simp
  qed
  from run second run2 show ?thesis by simp
qed

end
